theory Spec2Isabelle
  imports
    Complex_Main
    "HOL-Library.Multiset"
    "HOL-Library.Sublist"
    "HOL-Library.Char_ord"
    "HOL-Library.List_Lexorder"
begin

section \<open>Data model\<close>

text \<open>
  Analysis.py works on pandas DataFrames. A numeric cell is a float; this development keeps
  the special values of floating-point arithmetic that the program can produce (the two
  infinities and NaN, which pandas also uses as its "missing" marker) and idealises the
  finite values as exact reals: rounding, the range of a double and the sign of zero are
  not modelled (a zero stands for \<open>+0.0\<close>). Nor does the model tell an int64 column from a
  float one: the wrap-around of int64 arithmetic is not modelled, and the statements about
  sums below are made for tables whose sums stay within int64 (\<open>pts_within_int64\<close>).
\<close>

datatype fl = Fin real | PInf | NInf | NaN

text \<open>A cell read from a CSV file is text or a number; a missing cell is NaN.\<close>

datatype cell = Str string | Num fl

type_synonym row = "string \<Rightarrow> cell"

text \<open>
  A DataFrame: the ordered column names and the rows in order. A row gives the cell of every
  column; what it gives for a name that is not a column is never read (every read of a
  column checks \<open>columns\<close> first and raises KeyError otherwise).
\<close>

record table =
  columns :: "string list"
  rows :: "row list"

datatype error = KeyError "string list" | TypeError | ValueError | IndexError

subsection \<open>Float arithmetic and comparison\<close>

fun fl_add :: "fl \<Rightarrow> fl \<Rightarrow> fl" where
  "fl_add NaN _ = NaN"
| "fl_add _ NaN = NaN"
| "fl_add PInf NInf = NaN"
| "fl_add NInf PInf = NaN"
| "fl_add PInf _ = PInf"
| "fl_add _ PInf = PInf"
| "fl_add NInf _ = NInf"
| "fl_add _ NInf = NInf"
| "fl_add (Fin a) (Fin b) = Fin (a + b)"

text \<open>
  True division of two float columns (\<open>data['PTS'] / data['G']\<close>): dividing by zero raises
  nothing; it gives an infinity with the sign of the numerator, or NaN for \<open>0 / 0\<close>.
\<close>

fun fl_div :: "fl \<Rightarrow> fl \<Rightarrow> fl" where
  "fl_div NaN _ = NaN"
| "fl_div _ NaN = NaN"
| "fl_div (Fin a) (Fin b) =
     (if b = 0 then (if a = 0 then NaN else if 0 < a then PInf else NInf) else Fin (a / b))"
| "fl_div (Fin a) _ = Fin 0"
| "fl_div PInf (Fin b) = (if 0 \<le> b then PInf else NInf)"
| "fl_div NInf (Fin b) = (if 0 \<le> b then NInf else PInf)"
| "fl_div _ _ = NaN"

text \<open>The comparison \<open>a <= b\<close> of floats: false as soon as one side is NaN.\<close>

fun fl_le :: "fl \<Rightarrow> fl \<Rightarrow> bool" where
  "fl_le NaN _ = False"
| "fl_le _ NaN = False"
| "fl_le NInf _ = True"
| "fl_le _ PInf = True"
| "fl_le (Fin a) (Fin b) = (a \<le> b)"
| "fl_le _ _ = False"

fun fl_sum :: "fl list \<Rightarrow> fl" where
  "fl_sum [] = Fin 0"
| "fl_sum (x # xs) = fl_add x (fl_sum xs)"

subsection \<open>Cells and columns\<close>

definition isna :: "cell \<Rightarrow> bool" where
  "isna c = (c = Num NaN)"

fun is_num :: "cell \<Rightarrow> bool" where
  "is_num (Num _) = True"
| "is_num (Str _) = False"

fun num_of :: "cell \<Rightarrow> fl" where
  "num_of (Num x) = x"
| "num_of (Str _) = NaN"

definition column_values :: "string \<Rightarrow> table \<Rightarrow> cell list" where
  "column_values c t = map (\<lambda>r. r c) (rows t)"

definition missing_columns :: "string list \<Rightarrow> table \<Rightarrow> string list" where
  "missing_columns cs t = filter (\<lambda>c. c \<notin> set (columns t)) cs"

definition numeric_column :: "string \<Rightarrow> table \<Rightarrow> bool" where
  "numeric_column c t = list_all is_num (column_values c t)"

section \<open>clean_data\<close>

text \<open>
  \<open>DataFrame.dropna(subset=...)\<close>: a new frame with the rows in which no column of
  the subset \<open>sub\<close> is missing; KeyError (naming the absent ones) when a column of
  \<open>sub\<close> is not a column of the frame.
\<close>

definition complete_in :: "string list \<Rightarrow> row \<Rightarrow> bool" where
  "complete_in sub r = list_all (\<lambda>c. \<not> isna (r c)) sub"

definition dropna :: "string list \<Rightarrow> table \<Rightarrow> error + table" where
  "dropna sub t =
     (if missing_columns sub t \<noteq> [] then Inl (KeyError (missing_columns sub t))
      else Inr (t\<lparr>rows := filter (complete_in sub) (rows t)\<rparr>))"

text \<open>
  \<open>pd.to_numeric(..., errors='coerce')\<close> on one cell. Which texts are numbers, and which
  number each is, is pandas' parser: it is the parameter \<open>parse\<close>, which gives NaN for a
  text that is no number. A cell that is a number already is kept.
\<close>

fun to_numeric :: "(string \<Rightarrow> fl) \<Rightarrow> cell \<Rightarrow> cell" where
  "to_numeric parse (Str s) = Num (parse s)"
| "to_numeric parse (Num x) = Num x"

definition numeric_columns :: "string list" where
  "numeric_columns = [''PTS'', ''G'', ''MP'', ''TRB'', ''AST'', ''STL'', ''BLK'']"

definition assign_numeric :: "(string \<Rightarrow> fl) \<Rightarrow> string \<Rightarrow> row \<Rightarrow> row" where
  "assign_numeric parse col r = r(col := to_numeric parse (r col))"

text \<open>The loop \<open>for col in numeric_columns: if col in data.columns: data[col] = ...\<close>.\<close>

fun coerce_columns :: "(string \<Rightarrow> fl) \<Rightarrow> string list \<Rightarrow> table \<Rightarrow> table" where
  "coerce_columns parse [] t = t"
| "coerce_columns parse (col # cs) t =
     coerce_columns parse cs
       (if col \<in> set (columns t) then t\<lparr>rows := map (assign_numeric parse col) (rows t)\<rparr>
        else t)"

text \<open>
  \<open>clean_data\<close>: the first \<open>dropna\<close> makes a new frame, so the caller's frame is not
  changed; the printed counts are not part of the result.
\<close>

definition clean_data :: "(string \<Rightarrow> fl) \<Rightarrow> table \<Rightarrow> error + table" where
  "clean_data parse data =
     (case dropna [''Player'', ''Tm'', ''PTS'', ''G''] data of
        Inl e \<Rightarrow> Inl e
      | Inr d \<Rightarrow> dropna [''PTS''] (coerce_columns parse numeric_columns d))"

section \<open>Sorting\<close>

text \<open>
  \<open>DataFrame.sort_values(by=..., ascending=False)\<close> is called without \<open>kind\<close>, so pandas
  uses its default algorithm (quicksort), which is free to order rows of equal key either
  way. The algorithm is therefore a parameter \<open>srt\<close> of the analyses, and what pandas
  promises of it is \<open>sorts_descending\<close>: the result holds the same rows, keys
  non-increasing, rows whose key is NaN last.
\<close>

type_synonym sorter = "(row \<Rightarrow> fl) \<Rightarrow> row list \<Rightarrow> row list"

definition desc_ordered :: "fl \<Rightarrow> fl \<Rightarrow> bool" where
  "desc_ordered a b = (b = NaN \<or> fl_le b a)"

definition sorts_descending :: "sorter \<Rightarrow> bool" where
  "sorts_descending srt =
     (\<forall>key xs. mset (srt key xs) = mset xs \<and>
        sorted_wrt (\<lambda>a b. desc_ordered (key a) (key b)) (srt key xs))"

definition sort_values :: "sorter \<Rightarrow> string \<Rightarrow> table \<Rightarrow> table" where
  "sort_values srt col t = t\<lparr>rows := srt (\<lambda>r. num_of (r col)) (rows t)\<rparr>"

text \<open>One algorithm that keeps this promise: insertion sort, which is stable.\<close>

fun insert_desc :: "('a \<Rightarrow> fl) \<Rightarrow> 'a \<Rightarrow> 'a list \<Rightarrow> 'a list" where
  "insert_desc key x [] = [x]"
| "insert_desc key x (y # ys) =
     (if desc_ordered (key x) (key y) then x # y # ys else y # insert_desc key x ys)"

fun stable_sort_desc :: "('a \<Rightarrow> fl) \<Rightarrow> 'a list \<Rightarrow> 'a list" where
  "stable_sort_desc key [] = []"
| "stable_sort_desc key (x # xs) = insert_desc key x (stable_sort_desc key xs)"

text \<open>Another one: sorting the reversed list, which reverses the input order of equal keys.\<close>

definition tie_reversing_sort :: "('a \<Rightarrow> fl) \<Rightarrow> 'a list \<Rightarrow> 'a list" where
  "tie_reversing_sort key xs = stable_sort_desc key (rev xs)"

section \<open>analyze_top_scorers\<close>

definition top_scorer_columns :: "string list" where
  "top_scorer_columns = [''Player'', ''Tm'', ''Year'', ''PTS'', ''G'', ''MP'']"

definition restrict_row :: "string list \<Rightarrow> row \<Rightarrow> row" where
  "restrict_row cs r = (\<lambda>c. if c \<in> set cs then r c else Num NaN)"

text \<open>\<open>data[[...]].copy()\<close>: a new frame with the listed columns, KeyError when one is absent.\<close>

definition select_columns :: "string list \<Rightarrow> table \<Rightarrow> error + table" where
  "select_columns cs t =
     (if missing_columns cs t \<noteq> [] then Inl (KeyError (missing_columns cs t))
      else Inr \<lparr>columns = cs, rows = map (restrict_row cs) (rows t)\<rparr>)"

text \<open>\<open>head(n)\<close> is the slice \<open>[:n]\<close>: for a negative \<open>n\<close>, all rows but the last \<open>-n\<close>.\<close>

definition head :: "int \<Rightarrow> table \<Rightarrow> table" where
  "head n t =
     t\<lparr>rows := take (nat (if n < 0 then int (length (rows t)) + n else n)) (rows t)\<rparr>"

definition rank_cells :: "nat \<Rightarrow> cell list" where
  "rank_cells n = map (\<lambda>i. Num (Fin (of_nat i))) [1..<Suc n]"

text \<open>
  \<open>insert(0, 'Rank', range(1, len(...) + 1))\<close>: the new leading column; pandas raises
  ValueError when the frame has a column of that name already.
\<close>

definition insert_rank :: "table \<Rightarrow> error + table" where
  "insert_rank t =
     (if ''Rank'' \<in> set (columns t) then Inl ValueError
      else Inr \<lparr>columns = ''Rank'' # columns t,
                rows = map2 (\<lambda>v r. r(''Rank'' := v)) (rank_cells (length (rows t))) (rows t)\<rparr>)"

text \<open>
  A text cell in \<open>PTS\<close> makes the function raise (in the sort when texts and numbers are
  mixed, in \<open>top_scorers['PTS'].mean()\<close> otherwise); the caller's frame is never written.
\<close>

definition analyze_top_scorers :: "sorter \<Rightarrow> table \<Rightarrow> int \<Rightarrow> error + table" where
  "analyze_top_scorers srt data top_n =
     (case select_columns top_scorer_columns data of
        Inl e \<Rightarrow> Inl e
      | Inr top_scorers \<Rightarrow>
          if \<not> numeric_column ''PTS'' top_scorers then Inl TypeError
          else insert_rank (head top_n (sort_values srt ''PTS'' top_scorers)))"

section \<open>analyze_team_performance\<close>

text \<open>
  \<open>data['PPG'] = data['PTS'] / data['G']\<close> writes the new column into the frame the caller
  passed: \<open>add_ppg\<close> gives that frame as it is after the assignment. Dividing a text cell
  raises TypeError, before anything is written.
\<close>

definition add_ppg :: "table \<Rightarrow> error + table" where
  "add_ppg data =
     (if ''PTS'' \<notin> set (columns data) then Inl (KeyError [''PTS''])
      else if ''G'' \<notin> set (columns data) then Inl (KeyError [''G''])
      else if \<not> (numeric_column ''PTS'' data \<and> numeric_column ''G'' data) then Inl TypeError
      else Inr \<lparr>columns = (if ''PPG'' \<in> set (columns data) then columns data
                            else columns data @ [''PPG'']),
                rows = map (\<lambda>r. r(''PPG'' := Num (fl_div (num_of (r ''PTS'')) (num_of (r ''G'')))))
                         (rows data)\<rparr>)"

text \<open>
  The aggregations of a group: each skips NaN; \<open>count\<close> counts the cells that are not
  missing. \<open>agg_sum\<close> is the exact sum: on an int64 column pandas' sum wraps around at
  \<open>2^63\<close>, which \<open>agg_sum\<close> does not.
\<close>

definition skipna :: "fl list \<Rightarrow> fl list" where
  "skipna xs = filter (\<lambda>x. x \<noteq> NaN) xs"

definition agg_sum :: "fl list \<Rightarrow> fl" where
  "agg_sum xs = fl_sum (skipna xs)"

definition agg_mean :: "fl list \<Rightarrow> fl" where
  "agg_mean xs =
     (if skipna xs = [] then NaN
      else fl_div (fl_sum (skipna xs)) (Fin (of_nat (length (skipna xs)))))"

definition agg_count :: "cell list \<Rightarrow> nat" where
  "agg_count cs = length (filter (\<lambda>c. \<not> isna c) cs)"

text \<open>
  \<open>groupby('Tm')\<close> leaves out the rows whose key is missing and orders the groups by key
  (numbers before texts, texts by code point).
\<close>

fun key_le :: "cell \<Rightarrow> cell \<Rightarrow> bool" where
  "key_le (Num a) (Num b) = fl_le a b"
| "key_le (Num _) (Str _) = True"
| "key_le (Str _) (Num _) = False"
| "key_le (Str a) (Str b) = (a \<le> b)"

fun insert_key :: "cell \<Rightarrow> cell list \<Rightarrow> cell list" where
  "insert_key k [] = [k]"
| "insert_key k (j # js) = (if key_le k j then k # j # js else j # insert_key k js)"

fun sort_keys :: "cell list \<Rightarrow> cell list" where
  "sort_keys [] = []"
| "sort_keys (k # ks) = insert_key k (sort_keys ks)"

definition group_keys :: "table \<Rightarrow> cell list" where
  "group_keys t = sort_keys (remdups (filter (\<lambda>c. \<not> isna c) (column_values ''Tm'' t)))"

definition group_of :: "table \<Rightarrow> cell \<Rightarrow> row list" where
  "group_of t k = filter (\<lambda>r. r ''Tm'' = k) (rows t)"

definition num_values :: "string \<Rightarrow> row list \<Rightarrow> fl list" where
  "num_values c rs = map (\<lambda>r. num_of (r c)) rs"

definition team_columns :: "string list" where
  "team_columns =
     [''Team'', ''Avg_PPG_Per_Player'', ''Total_Players'', ''Total_Points'', ''Avg_Games_Played'']"

text \<open>The row of one team after \<open>agg\<close>, \<open>reset_index\<close> and the renaming of the columns.\<close>

definition team_row :: "table \<Rightarrow> cell \<Rightarrow> row" where
  "team_row t k =
     (\<lambda>c. Num NaN)
       (''Team'' := k,
        ''Avg_PPG_Per_Player'' := Num (agg_mean (num_values ''PPG'' (group_of t k))),
        ''Total_Players'' := Num (Fin (of_nat (agg_count (map (\<lambda>r. r ''Player'') (group_of t k))))),
        ''Total_Points'' := Num (agg_sum (num_values ''PTS'' (group_of t k))),
        ''Avg_Games_Played'' := Num (agg_mean (num_values ''G'' (group_of t k))))"

definition groupby_agg :: "table \<Rightarrow> error + table" where
  "groupby_agg t =
     (if ''Tm'' \<notin> set (columns t) then Inl (KeyError [''Tm''])
      else if ''Player'' \<notin> set (columns t) then Inl (KeyError [''Player''])
      else Inr \<lparr>columns = team_columns, rows = map (team_row t) (group_keys t)\<rparr>)"

text \<open>
  What follows the aggregation: the sort, the rank column, and the insight lines, whose
  \<open>team_stats.iloc[0]\<close> raises IndexError on a frame without rows.
\<close>

definition rank_teams :: "sorter \<Rightarrow> table \<Rightarrow> error + table" where
  "rank_teams srt t =
     (case groupby_agg t of
        Inl e \<Rightarrow> Inl e
      | Inr team_stats \<Rightarrow>
          (case insert_rank (sort_values srt ''Avg_PPG_Per_Player'' team_stats) of
             Inl e \<Rightarrow> Inl e
           | Inr ranked \<Rightarrow> if rows ranked = [] then Inl IndexError else Inr ranked))"

text \<open>
  The first component is the caller's frame as the call leaves it (the argument is the
  caller's object, not a copy), the second what the call returns or raises.
\<close>

definition analyze_team_performance :: "sorter \<Rightarrow> table \<Rightarrow> table \<times> (error + table)" where
  "analyze_team_performance srt data =
     (case add_ppg data of
        Inl e \<Rightarrow> (data, Inl e)
      | Inr data' \<Rightarrow> (data', rank_teams srt data'))"

section \<open>load_data and main\<close>

text \<open>
  The file system is a map from paths to file contents, and \<open>read_csv\<close> is pandas' reader of
  a file's content, \<open>None\<close> where it raises. \<open>load_data\<close> catches both exceptions and
  returns Python's \<open>None\<close>.
\<close>

definition load_data :: "(string \<Rightarrow> string option) \<Rightarrow> (string \<Rightarrow> table option) \<Rightarrow> string \<Rightarrow> table option" where
  "load_data fs read_csv filepath =
     (case fs filepath of None \<Rightarrow> None | Some content \<Rightarrow> read_csv content)"

text \<open>\<open>preview_data\<close> only prints; \<open>describe()\<close> raises ValueError on a frame without columns.\<close>

definition preview_data :: "table \<Rightarrow> error option" where
  "preview_data data = (if columns data = [] then Some ValueError else None)"

datatype stage = Preview | Clean | TopScorers | TeamPerformance | Visualization | Report

text \<open>
  What one run of \<open>main\<close> does: the stages after loading that ran to their end, the image
  files written, the exception that ended the run (if one did), and the frame that
  \<open>generate_summary_report\<close> received as \<open>data\<close>.
\<close>

record run =
  completed :: "stage list"
  images :: "string list"
  raised :: "error option"
  report_data :: "table option"

definition halted :: "stage list \<Rightarrow> error option \<Rightarrow> run" where
  "halted done e = \<lparr>completed = done, images = [], raised = e, report_data = None\<rparr>"

definition main :: "sorter \<Rightarrow> (string \<Rightarrow> fl) \<Rightarrow> (string \<Rightarrow> string option) \<Rightarrow> (string \<Rightarrow> table option) \<Rightarrow> run" where
  "main srt parse fs read_csv =
     (case load_data fs read_csv ''data/NBA_Player_Stats.csv'' of
        None \<Rightarrow> halted [] None
      | Some raw \<Rightarrow>
          (case preview_data raw of
             Some e \<Rightarrow> halted [] (Some e)
           | None \<Rightarrow>
               (case clean_data parse raw of
                  Inl e \<Rightarrow> halted [Preview] (Some e)
                | Inr data \<Rightarrow>
                    (case analyze_top_scorers srt data 10 of
                       Inl e \<Rightarrow> halted [Preview, Clean] (Some e)
                     | Inr top_scorers \<Rightarrow>
                         (case analyze_team_performance srt data of
                            (data', Inl e) \<Rightarrow> halted [Preview, Clean, TopScorers] (Some e)
                          | (data', Inr team_stats) \<Rightarrow>
                              \<lparr>completed = [Preview, Clean, TopScorers, TeamPerformance,
                                             Visualization, Report],
                               images = [''team_performance.png''],
                               raised = None,
                               report_data = Some data'\<rparr>)))))"

section \<open>Example inputs\<close>

text \<open>
  A reader of unsigned decimal numerals, which agrees with pandas' parser on the texts of the
  examples below (digit strings, and words that are no numbers).
\<close>

definition digit_of :: "char \<Rightarrow> nat option" where
  "digit_of c =
     (if 48 \<le> (of_char c :: nat) \<and> (of_char c :: nat) \<le> 57 then Some (of_char c - 48) else None)"

fun digits_value :: "nat \<Rightarrow> string \<Rightarrow> nat option" where
  "digits_value acc [] = Some acc"
| "digits_value acc (c # cs) =
     (case digit_of c of None \<Rightarrow> None | Some d \<Rightarrow> digits_value (10 * acc + d) cs)"

definition parse_decimal :: "string \<Rightarrow> fl" where
  "parse_decimal s =
     (if s = [] then NaN
      else case digits_value 0 s of None \<Rightarrow> NaN | Some n \<Rightarrow> Fin (of_nat n))"

definition mk_row :: "(string \<times> cell) list \<Rightarrow> row" where
  "mk_row kvs = (\<lambda>c. case map_of kvs c of Some v \<Rightarrow> v | None \<Rightarrow> Num NaN)"

definition player_columns :: "string list" where
  "player_columns = [''Player'', ''Tm'', ''Year'', ''PTS'', ''G'', ''MP'']"

definition player_row :: "string \<Rightarrow> string \<Rightarrow> cell \<Rightarrow> cell \<Rightarrow> row" where
  "player_row p tm pts g =
     mk_row [(''Player'', Str p), (''Tm'', Str tm), (''Year'', Num (Fin 2020)),
             (''PTS'', pts), (''G'', g), (''MP'', Num (Fin 100))]"

definition scenario_a :: table where
  "scenario_a =
     \<lparr>columns = player_columns,
      rows = [player_row ''P1'' ''X'' (Num (Fin 10)) (Num (Fin 1)),
              player_row ''P2'' ''X'' (Num (Fin 20)) (Num (Fin 1)),
              player_row ''P3'' ''X'' (Num (Fin 30)) (Num (Fin 1)),
              player_row ''P4'' ''Y'' (Num (Fin 5)) (Num (Fin 1))]\<rparr>"

definition unparsable_games :: table where
  "unparsable_games =
     \<lparr>columns = player_columns,
      rows = [player_row ''P1'' ''X'' (Num (Fin 10)) (Str ''abc'')]\<rparr>"

definition zero_games :: table where
  "zero_games =
     \<lparr>columns = player_columns,
      rows = [player_row ''P1'' ''X'' (Num (Fin 0)) (Num (Fin 0)),
              player_row ''P2'' ''X'' (Num (Fin 10)) (Num (Fin 1))]\<rparr>"


definition raw_sample :: table where
  "raw_sample =
     \<lparr>columns = player_columns,
      rows = [player_row ''P1'' ''X'' (Str ''10'') (Str ''5''),
              player_row ''P2'' ''X'' (Num NaN) (Str ''7''),
              player_row ''P3'' ''Y'' (Str ''n/a'') (Str ''3'')]\<rparr>"

definition tied_scorers :: table where
  "tied_scorers =
     \<lparr>columns = player_columns,
      rows = [player_row ''P1'' ''X'' (Num (Fin 10)) (Num (Fin 1)),
              player_row ''P2'' ''Y'' (Num (Fin 10)) (Num (Fin 1))]\<rparr>"

definition missing_points :: table where
  "missing_points =
     \<lparr>columns = player_columns,
      rows = [player_row ''P1'' ''X'' (Num NaN) (Num (Fin 1)),
              player_row ''P2'' ''X'' (Num (Fin 5)) (Num (Fin 1))]\<rparr>"

definition no_rows :: table where
  "no_rows = \<lparr>columns = player_columns, rows = []\<rparr>"

text \<open>A file system with the data file, one without it, and a reader that gives Scenario A.\<close>

definition sample_files :: "string \<Rightarrow> string option" where
  "sample_files path = (if path = ''data/NBA_Player_Stats.csv'' then Some ''csv text'' else None)"

definition sample_reader :: "string \<Rightarrow> table option" where
  "sample_reader content = Some scenario_a"

definition no_files :: "string \<Rightarrow> string option" where
  "no_files path = None"

section \<open>Notions used in the statements\<close>

text \<open>What the coercion loop of \<open>clean_data\<close> does to one row of a frame with columns \<open>cols\<close>.\<close>

fun coerce_row :: "(string \<Rightarrow> fl) \<Rightarrow> string list \<Rightarrow> string list \<Rightarrow> row \<Rightarrow> row" where
  "coerce_row parse cols [] r = r"
| "coerce_row parse cols (c # cs) r =
     coerce_row parse cols cs (if c \<in> set cols then assign_numeric parse c r else r)"

text \<open>
  What \<open>clean_data\<close> establishes and the analyses rely on: the four critical columns exist,
  \<open>Player\<close>, \<open>Tm\<close> and \<open>PTS\<close> are never missing, and \<open>PTS\<close> and \<open>G\<close> hold numbers.
\<close>

definition cleaned_row :: "row \<Rightarrow> bool" where
  "cleaned_row r =
     (\<not> isna (r ''Player'') \<and> \<not> isna (r ''Tm'') \<and> \<not> isna (r ''PTS'') \<and>
      is_num (r ''PTS'') \<and> is_num (r ''G''))"

definition cleaned :: "table \<Rightarrow> bool" where
  "cleaned t =
     (missing_columns [''Player'', ''Tm'', ''PTS'', ''G''] t = [] \<and> list_all cleaned_row (rows t))"

definition row_count :: "error + table \<Rightarrow> error + nat" where
  "row_count res = (case res of Inl e \<Rightarrow> Inl e | Inr t \<Rightarrow> Inr (length (rows t)))"

definition result_columns :: "error + table \<Rightarrow> error + string list" where
  "result_columns res = (case res of Inl e \<Rightarrow> Inl e | Inr t \<Rightarrow> Inr (columns t))"

definition clean_twice :: "(string \<Rightarrow> fl) \<Rightarrow> table \<Rightarrow> error + table" where
  "clean_twice parse data =
     (case clean_data parse data of Inl e \<Rightarrow> Inl e | Inr d \<Rightarrow> clean_data parse d)"

text \<open>
  pandas keeps a column of whole numbers as an int64 column, and the sum of a group of such a
  column wraps around at \<open>2^63\<close>. The model has one numeric type and sums exactly, so
  what is stated about \<open>Total_Points\<close> is stated for tables whose \<open>PTS\<close> stay in range:
  the absolute values of the finite \<open>PTS\<close> of the table sum to less than \<open>2^63\<close>, which
  keeps every partial sum of every group within int64.
\<close>

fun fl_abs :: "fl \<Rightarrow> real" where
  "fl_abs (Fin a) = \<bar>a\<bar>"
| "fl_abs PInf = 0"
| "fl_abs NInf = 0"
| "fl_abs NaN = 0"

definition pts_within_int64 :: "table \<Rightarrow> bool" where
  "pts_within_int64 t = (sum_list (map fl_abs (num_values ''PTS'' (rows t))) < 2 ^ 63)"

text \<open>The points per game of a row, and the arithmetic mean of a list of floats.\<close>

definition ppg_of :: "row \<Rightarrow> fl" where
  "ppg_of r = fl_div (num_of (r ''PTS'')) (num_of (r ''G''))"

text \<open>The row as \<open>analyze_team_performance\<close> leaves it in the caller's frame.\<close>

definition with_ppg :: "row \<Rightarrow> row" where
  "with_ppg r = r(''PPG'' := Num (ppg_of r))"

definition plain_mean :: "fl list \<Rightarrow> fl" where
  "plain_mean xs = fl_div (fl_sum xs) (Fin (of_nat (length xs)))"

definition team_rows :: "table \<Rightarrow> cell \<Rightarrow> row list" where
  "team_rows t k = filter (\<lambda>r. r ''Tm'' = k) (rows t)"

definition result_column :: "string \<Rightarrow> error + table \<Rightarrow> error + cell list" where
  "result_column c res = (case res of Inl e \<Rightarrow> Inl e | Inr t \<Rightarrow> Inr (column_values c t))"

section \<open>Properties of clean_data\<close>

lemma columns_coerce_columns: "columns (coerce_columns parse cs t) = columns t"
  by (induction cs arbitrary: t) auto

lemma rows_coerce_columns:
  "rows (coerce_columns parse cs t) = map (coerce_row parse (columns t) cs) (rows t)"
proof (induction cs arbitrary: t)
  case Nil
  then show ?case by simp
next
  case (Cons c cs)
  show ?case
  proof (cases "c \<in> set (columns t)")
    case True
    then show ?thesis using Cons [of "t\<lparr>rows := map (assign_numeric parse c) (rows t)\<rparr>"]
      by (simp add: comp_def)
  next
    case False
    then show ?thesis using Cons [of t] by simp
  qed
qed

lemma coerce_row_apply:
  "distinct cs \<Longrightarrow>
   coerce_row parse cols cs r c =
     (if c \<in> set cs \<and> c \<in> set cols then to_numeric parse (r c) else r c)"
proof (induction cs arbitrary: r)
  case Nil
  then show ?case by simp
next
  case (Cons a cs)
  then show ?case by (auto simp: assign_numeric_def)
qed

lemma distinct_numeric_columns: "distinct numeric_columns"
  by (simp add: numeric_columns_def)

lemma is_num_to_numeric: "is_num (to_numeric parse c)"
  by (cases c) simp_all

lemma to_numeric_idem: "to_numeric parse (to_numeric parse c) = to_numeric parse c"
  by (cases c) simp_all

lemma dropna_Inr:
  "dropna sub t = Inr d \<Longrightarrow>
   missing_columns sub t = [] \<and> columns d = columns t \<and> rows d = filter (complete_in sub) (rows t)"
  by (auto simp: dropna_def split: if_splits)

lemma missing_columns_Nil: "missing_columns cs t = [] \<longleftrightarrow> set cs \<subseteq> set (columns t)"
  by (auto simp: missing_columns_def filter_empty_conv)

lemma clean_data_Inr:
  assumes "clean_data parse data = Inr out"
  shows "missing_columns [''Player'', ''Tm'', ''PTS'', ''G''] data = []"
    and "columns out = columns data"
    and "rows out =
           filter (complete_in [''PTS''])
             (map (coerce_row parse (columns data) numeric_columns)
                (filter (complete_in [''Player'', ''Tm'', ''PTS'', ''G'']) (rows data)))"
proof -
  from assms obtain d where d: "dropna [''Player'', ''Tm'', ''PTS'', ''G''] data = Inr d"
    and o: "dropna [''PTS''] (coerce_columns parse numeric_columns d) = Inr out"
    by (auto simp: clean_data_def split: sum.splits)
  note D = dropna_Inr [OF d] and O = dropna_Inr [OF o]
  show "missing_columns [''Player'', ''Tm'', ''PTS'', ''G''] data = []" using D by simp
  show "columns out = columns data" using D O by (simp add: columns_coerce_columns)
  show "rows out =
           filter (complete_in [''PTS''])
             (map (coerce_row parse (columns data) numeric_columns)
                (filter (complete_in [''Player'', ''Tm'', ''PTS'', ''G'']) (rows data)))"
    using D O by (simp add: rows_coerce_columns)
qed

lemma clean_data_total:
  "missing_columns [''Player'', ''Tm'', ''PTS'', ''G''] data = [] \<Longrightarrow>
   \<exists>out. clean_data parse data = Inr out"
  by (auto simp: clean_data_def dropna_def missing_columns_def columns_coerce_columns
      split: sum.splits if_splits)

lemma clean_data_cleaned:
  assumes "clean_data parse data = Inr out"
  shows "cleaned out"
proof -
  note C = clean_data_Inr [OF assms]
  have cols: "set [''Player'', ''Tm'', ''PTS'', ''G''] \<subseteq> set (columns data)"
    using C(1) by (simp only: missing_columns_Nil)
  have "cleaned_row r" if "r \<in> set (rows out)" for r
  proof -
    from that C(3) obtain r0 where r0: "complete_in [''Player'', ''Tm'', ''PTS'', ''G''] r0"
      and r: "r = coerce_row parse (columns data) numeric_columns r0"
      and p: "complete_in [''PTS''] r"
      by auto
    have a: "r c = (if c \<in> set numeric_columns \<and> c \<in> set (columns data)
                    then to_numeric parse (r0 c) else r0 c)" for c
      unfolding r by (rule coerce_row_apply [OF distinct_numeric_columns])
    have "r ''Player'' = r0 ''Player''" "r ''Tm'' = r0 ''Tm''"
      by (simp_all add: a numeric_columns_def)
    moreover have "r ''PTS'' = to_numeric parse (r0 ''PTS'')" "r ''G'' = to_numeric parse (r0 ''G'')"
      using cols by (simp_all add: a numeric_columns_def)
    ultimately show ?thesis using r0 p
      by (simp add: cleaned_row_def complete_in_def is_num_to_numeric)
  qed
  then show ?thesis using C(1,2)
    by (simp add: cleaned_def list_all_iff missing_columns_def)
qed

lemma clean_data_numeric:
  assumes "clean_data parse data = Inr out" and "c \<in> set numeric_columns" and "c \<in> set (columns out)"
  shows "numeric_column c out"
proof -
  note C = clean_data_Inr [OF assms(1)]
  have "is_num (r c)" if "r \<in> set (rows out)" for r
  proof -
    from that C(3) obtain r0 where "r = coerce_row parse (columns data) numeric_columns r0"
      by auto
    then show ?thesis using assms(2,3) C(2)
      by (simp add: coerce_row_apply [OF distinct_numeric_columns] is_num_to_numeric)
  qed
  then show ?thesis by (simp add: numeric_column_def column_values_def list_all_iff)
qed

text \<open>
  C4. When \<open>clean_data\<close> returns, its frame has at most as many rows as the input and the
  same columns, and its rows are the coerced images of a subsequence of the input's rows, in
  the input's order: no row is added.
\<close>

theorem clean_data_rows_and_columns:
  assumes "clean_data parse data = Inr out"
  shows "length (rows out) \<le> length (rows data) \<and> columns out = columns data \<and>
         (\<exists>kept. subseq kept (rows data) \<and>
            rows out = map (coerce_row parse (columns data) numeric_columns) kept)"
proof -
  let ?f = "coerce_row parse (columns data) numeric_columns"
  let ?kept = "filter (complete_in [''PTS''] \<circ> ?f)
                 (filter (complete_in [''Player'', ''Tm'', ''PTS'', ''G'']) (rows data))"
  have r: "rows out = map ?f ?kept"
    using clean_data_Inr(3) [OF assms] by (simp add: filter_map)
  have s: "subseq ?kept (rows data)"
    by (rule subseq_order.order_trans [OF subseq_filter_left subseq_filter_left])
  have "length (rows out) = length ?kept" using r by simp
  also have "\<dots> \<le> length (rows data)"
    by (rule order_trans [OF length_filter_le length_filter_le])
  finally have "length (rows out) \<le> length (rows data)" .
  moreover have "columns out = columns data" by (rule clean_data_Inr(2) [OF assms])
  ultimately show ?thesis using r s by blast
qed

lemma raw_sample_has_columns:
  "missing_columns [''Player'', ''Tm'', ''PTS'', ''G''] raw_sample = []"
  by (simp add: missing_columns_def raw_sample_def player_columns_def)

theorem clean_data_rows_and_columns_witness:
  "\<exists>out. clean_data parse_decimal raw_sample = Inr out \<and>
     length (rows out) \<le> length (rows raw_sample) \<and> columns out = columns raw_sample"
proof -
  obtain out where o: "clean_data parse_decimal raw_sample = Inr out"
    using clean_data_total [OF raw_sample_has_columns] by blast
  from clean_data_rows_and_columns [OF o] show ?thesis using o by blast
qed

text \<open>
  C3. A row whose \<open>G\<close> is a text that is no number passes the first \<open>dropna\<close> (the cell is
  not missing), has its \<open>G\<close> coerced to NaN, and passes the second \<open>dropna\<close>, which looks at
  \<open>PTS\<close> only: the cleaned frame keeps the row with \<open>G\<close> missing.
\<close>

theorem clean_data_keeps_missing_games:
  "result_column ''G'' (clean_data parse_decimal unparsable_games) = Inr [Num NaN]"
  by (simp add: result_column_def column_values_def clean_data_def dropna_def
      missing_columns_def unparsable_games_def player_columns_def player_row_def mk_row_def
      complete_in_def isna_def numeric_columns_def assign_numeric_def parse_decimal_def
      digit_of_def)

text \<open>
  C6. On the same input a second \<open>clean_data\<close> removes the row that the first one kept:
  its \<open>G\<close> is missing now, and the first \<open>dropna\<close> drops it.
\<close>

theorem clean_data_twice_drops_row:
  "row_count (clean_data parse_decimal unparsable_games) = Inr 1 \<and>
   row_count (clean_twice parse_decimal unparsable_games) = Inr 0"
  by (simp add: row_count_def clean_twice_def clean_data_def dropna_def
      missing_columns_def unparsable_games_def player_columns_def player_row_def mk_row_def
      complete_in_def isna_def numeric_columns_def assign_numeric_def parse_decimal_def
      digit_of_def)

section \<open>Properties of sorting\<close>

lemma desc_ordered_total: "desc_ordered a b \<or> desc_ordered b a"
  by (cases a; cases b) (auto simp: desc_ordered_def)

lemma desc_ordered_trans: "desc_ordered a b \<Longrightarrow> desc_ordered b c \<Longrightarrow> desc_ordered a c"
  by (cases a; cases b; cases c) (auto simp: desc_ordered_def)

lemma mset_insert_desc: "mset (insert_desc key x xs) = add_mset x (mset xs)"
  by (induction xs) auto

lemma set_insert_desc: "set (insert_desc key x xs) = insert x (set xs)"
  by (induction xs) auto

lemma sorted_insert_desc:
  "sorted_wrt (\<lambda>a b. desc_ordered (key a) (key b)) xs \<Longrightarrow>
   sorted_wrt (\<lambda>a b. desc_ordered (key a) (key b)) (insert_desc key x xs)"
proof (induction xs)
  case Nil
  then show ?case by simp
next
  case (Cons y ys)
  show ?case
  proof (cases "desc_ordered (key x) (key y)")
    case True
    then show ?thesis using Cons.prems by (auto intro: desc_ordered_trans)
  next
    case False
    then have "desc_ordered (key y) (key x)" using desc_ordered_total by blast
    then show ?thesis using False Cons by (auto simp: set_insert_desc)
  qed
qed

lemma mset_stable_sort_desc: "mset (stable_sort_desc key xs) = mset xs"
  by (induction xs) (auto simp: mset_insert_desc)

lemma sorted_stable_sort_desc:
  "sorted_wrt (\<lambda>a b. desc_ordered (key a) (key b)) (stable_sort_desc key xs)"
  by (induction xs) (auto intro: sorted_insert_desc)

lemma stable_sort_desc_sorts: "sorts_descending stable_sort_desc"
  by (simp add: sorts_descending_def mset_stable_sort_desc sorted_stable_sort_desc)

lemma sorts_descending_length: "sorts_descending srt \<Longrightarrow> length (srt key xs) = length xs"
  by (metis sorts_descending_def size_mset)

lemma sorts_descending_set: "sorts_descending srt \<Longrightarrow> set (srt key xs) = set xs"
  by (metis sorts_descending_def set_mset_mset)

lemma sorts_descending_sorted:
  "sorts_descending srt \<Longrightarrow> sorted_wrt (\<lambda>a b. desc_ordered (key a) (key b)) (srt key xs)"
  by (simp add: sorts_descending_def)

section \<open>Properties of analyze_top_scorers\<close>

lemma length_rank_cells: "length (rank_cells n) = n"
  by (simp add: rank_cells_def)

lemma map2_update_column:
  "length vs = length rs \<Longrightarrow>
   map (\<lambda>r. r c) (map2 (\<lambda>v r. r(k := v)) vs rs) = (if c = k then vs else map (\<lambda>r. r c) rs)"
  by (induction vs rs rule: list_induct2) auto

lemma insert_rank_Inr:
  assumes "insert_rank t = Inr out"
  shows "length (rows out) = length (rows t)"
    and "columns out = ''Rank'' # columns t"
    and "column_values c out =
           (if c = ''Rank'' then rank_cells (length (rows t)) else column_values c t)"
proof -
  from assms have o: "out = \<lparr>columns = ''Rank'' # columns t,
      rows = map2 (\<lambda>v r. r(''Rank'' := v)) (rank_cells (length (rows t))) (rows t)\<rparr>"
    by (auto simp: insert_rank_def split: if_splits)
  show "length (rows out) = length (rows t)" by (simp add: o length_rank_cells)
  show "columns out = ''Rank'' # columns t" by (simp add: o)
  show "column_values c out =
           (if c = ''Rank'' then rank_cells (length (rows t)) else column_values c t)"
    unfolding column_values_def o
    using map2_update_column [of "rank_cells (length (rows t))" "rows t" c "''Rank''"]
    by (simp add: length_rank_cells)
qed

lemma sorted_by_column:
  "sorted_wrt (\<lambda>a b. desc_ordered (num_of (a c)) (num_of (b c))) (rows t) =
   sorted_wrt (\<lambda>a b. desc_ordered (num_of a) (num_of b)) (column_values c t)"
  by (simp add: column_values_def sorted_wrt_map)

lemma select_columns_Inr:
  assumes "select_columns cs t = Inr sel"
  shows "missing_columns cs t = []" and "columns sel = cs"
    and "rows sel = map (restrict_row cs) (rows t)"
  using assms by (auto simp: select_columns_def split: if_splits)

lemma column_values_select:
  "select_columns cs t = Inr sel \<Longrightarrow> c \<in> set cs \<Longrightarrow> column_values c sel = column_values c t"
  by (auto simp: select_columns_def column_values_def restrict_row_def split: if_splits)

lemma Rank_not_top_scorer_column: "''Rank'' \<notin> set top_scorer_columns"
  by (simp add: top_scorer_columns_def)

lemma PTS_top_scorer_column: "''PTS'' \<in> set top_scorer_columns"
  by (simp add: top_scorer_columns_def)

lemma analyze_top_scorers_Inr:
  assumes "analyze_top_scorers srt data n = Inr out"
  shows "missing_columns top_scorer_columns data = []" and "numeric_column ''PTS'' data"
    and "\<exists>sel. select_columns top_scorer_columns data = Inr sel \<and>
           insert_rank (head n (sort_values srt ''PTS'' sel)) = Inr out"
proof -
  from assms obtain sel where s: "select_columns top_scorer_columns data = Inr sel"
    and n: "numeric_column ''PTS'' sel"
    and o: "insert_rank (head n (sort_values srt ''PTS'' sel)) = Inr out"
    by (auto simp: analyze_top_scorers_def split: sum.splits if_splits)
  show "missing_columns top_scorer_columns data = []" by (rule select_columns_Inr(1) [OF s])
  show "numeric_column ''PTS'' data"
    using n column_values_select [OF s PTS_top_scorer_column] by (simp add: numeric_column_def)
  show "\<exists>sel. select_columns top_scorer_columns data = Inr sel \<and>
           insert_rank (head n (sort_values srt ''PTS'' sel)) = Inr out"
    using s o by blast
qed

lemma analyze_top_scorers_returns:
  assumes "missing_columns top_scorer_columns data = []" and "numeric_column ''PTS'' data"
  shows "\<exists>out. analyze_top_scorers srt data n = Inr out"
proof -
  obtain sel where s: "select_columns top_scorer_columns data = Inr sel"
    using assms(1) by (simp add: select_columns_def)
  have n: "numeric_column ''PTS'' sel"
    using assms(2) column_values_select [OF s PTS_top_scorer_column] by (simp add: numeric_column_def)
  have "columns (head n (sort_values srt ''PTS'' sel)) = top_scorer_columns"
    using select_columns_Inr(2) [OF s] by (simp add: head_def sort_values_def)
  then have "\<exists>out. insert_rank (head n (sort_values srt ''PTS'' sel)) = Inr out"
    using Rank_not_top_scorer_column by (simp add: insert_rank_def)
  then show ?thesis using s n by (simp add: analyze_top_scorers_def)
qed

lemma analyze_top_scorers_raises:
  assumes "\<not> (missing_columns top_scorer_columns data = [] \<and> numeric_column ''PTS'' data)"
  shows "\<exists>e. analyze_top_scorers srt data n = Inl e"
proof (cases "analyze_top_scorers srt data n")
  case (Inl e)
  then show ?thesis by blast
next
  case (Inr out)
  then show ?thesis using assms analyze_top_scorers_Inr(1,2) [OF Inr] by blast
qed

lemma top_scorers_props:
  assumes srt: "sorts_descending srt" and n: "0 < n"
    and res: "analyze_top_scorers srt data n = Inr out"
  shows "length (rows out) = min (nat n) (length (rows data))"
    and "sorted_wrt (\<lambda>a b. desc_ordered (num_of (a ''PTS'')) (num_of (b ''PTS''))) (rows out)"
    and "column_values ''Rank'' out = map (\<lambda>i. Num (Fin (real i))) [1..<Suc (length (rows out))]"
proof -
  from analyze_top_scorers_Inr(3) [OF res] obtain sel
    where s: "select_columns top_scorer_columns data = Inr sel"
      and o: "insert_rank (head n (sort_values srt ''PTS'' sel)) = Inr out"
    by blast
  let ?sorted = "srt (\<lambda>r. num_of (r ''PTS'')) (rows sel)"
  let ?h = "head n (sort_values srt ''PTS'' sel)"
  have h: "rows ?h = take (nat n) ?sorted"
    using n by (simp add: head_def sort_values_def)
  have len_sel: "length (rows sel) = length (rows data)"
    using select_columns_Inr(3) [OF s] by simp
  have "length (rows out) = length (rows ?h)" by (rule insert_rank_Inr(1) [OF o])
  also have "\<dots> = min (nat n) (length (rows data))"
    by (simp add: h sorts_descending_length [OF srt] len_sel min.commute)
  finally show len: "length (rows out) = min (nat n) (length (rows data))" .
  have "sorted_wrt (\<lambda>a b. desc_ordered (num_of (a ''PTS'')) (num_of (b ''PTS''))) (rows ?h)"
    unfolding h by (rule sorted_wrt_take [OF sorts_descending_sorted [OF srt]])
  moreover have "column_values ''PTS'' out = column_values ''PTS'' ?h"
    using insert_rank_Inr(3) [OF o, of "''PTS''"] by simp
  ultimately show "sorted_wrt (\<lambda>a b. desc_ordered (num_of (a ''PTS'')) (num_of (b ''PTS''))) (rows out)"
    by (simp add: sorted_by_column)
  show "column_values ''Rank'' out = map (\<lambda>i. Num (Fin (real i))) [1..<Suc (length (rows out))]"
    using insert_rank_Inr(1) [OF o] insert_rank_Inr(3) [OF o, of "''Rank''"]
    by (simp add: rank_cells_def)
qed

lemma mset_map_rearranged:
  "mset ys = mset (map f xs) \<Longrightarrow> \<exists>zs. mset zs = mset xs \<and> map f zs = ys"
proof (induction ys arbitrary: xs)
  case Nil
  then show ?case by simp
next
  case (Cons y ys)
  have "y \<in># mset (map f xs)" using Cons.prems by (metis list.set_intros(1) set_mset_mset)
  then obtain x where x: "x \<in> set xs" and y: "y = f x" by auto
  have "mset (map f (remove1 x xs)) = mset (map f xs) - {#f x#}"
    using x by (simp add: image_mset_Diff)
  also have "\<dots> = mset ys" using Cons.prems y by (metis add_mset_remove_trivial mset.simps(2))
  finally have "mset ys = mset (map f (remove1 x xs))" by simp
  from Cons.IH [OF this] obtain zs where zs: "mset zs = mset (remove1 x xs)" "map f zs = ys"
    by blast
  have "mset (x # zs) = mset xs" using zs(1) x by simp
  moreover have "map f (x # zs) = y # ys" using zs(2) y by simp
  ultimately have "mset (x # zs) = mset xs \<and> map f (x # zs) = y # ys" by (rule conjI)
  then show ?case by (rule exI)
qed

lemma restrict_row_PTS: "restrict_row top_scorer_columns r ''PTS'' = r ''PTS''"
  by (simp add: restrict_row_def top_scorer_columns_def)

lemma map2_rank_cells:
  "map2 (\<lambda>v r. r(''Rank'' := v)) (rank_cells m) (map g rs) =
   map2 (\<lambda>i r. (g r)(''Rank'' := Num (Fin (real i)))) [1..<Suc m] rs"
  unfolding rank_cells_def zip_map_map map_map by (rule map_cong) auto

lemma desc_ordered_fl_le: "desc_ordered a b \<Longrightarrow> b \<noteq> NaN \<Longrightarrow> fl_le b a"
  by (simp add: desc_ordered_def)

lemma top_scorers_rows:
  assumes srt: "sorts_descending srt" and n: "0 < n"
    and res: "analyze_top_scorers srt data n = Inr out"
  shows "\<exists>ordered. mset ordered = mset (rows data) \<and>
           sorted_wrt (\<lambda>a b. desc_ordered (num_of (a ''PTS'')) (num_of (b ''PTS''))) ordered \<and>
           columns out = ''Rank'' # top_scorer_columns \<and>
           rows out = map2 (\<lambda>i r. (restrict_row top_scorer_columns r)(''Rank'' := Num (Fin (real i))))
                        [1..<Suc (length (rows out))] (take (nat n) ordered)"
proof -
  from analyze_top_scorers_Inr(3) [OF res] obtain sel
    where s: "select_columns top_scorer_columns data = Inr sel"
      and o: "insert_rank (head n (sort_values srt ''PTS'' sel)) = Inr out"
    by blast
  let ?key = "\<lambda>r. num_of (r ''PTS'')"
  let ?cut = "restrict_row top_scorer_columns"
  let ?sorted = "srt ?key (rows sel)"
  let ?h = "head n (sort_values srt ''PTS'' sel)"
  have sel_rows: "rows sel = map ?cut (rows data)" by (rule select_columns_Inr(3) [OF s])
  have "mset ?sorted = mset (map ?cut (rows data))"
    using srt by (simp add: sorts_descending_def sel_rows)
  from mset_map_rearranged [OF this] obtain ordered
    where m: "mset ordered = mset (rows data)" and c: "map ?cut ordered = ?sorted"
    by blast
  have "sorted_wrt (\<lambda>a b. desc_ordered (?key a) (?key b)) (map ?cut ordered)"
    unfolding c by (rule sorts_descending_sorted [OF srt])
  then have sorted: "sorted_wrt (\<lambda>a b. desc_ordered (?key a) (?key b)) ordered"
    by (simp add: sorted_wrt_map restrict_row_PTS)
  have h: "rows ?h = map ?cut (take (nat n) ordered)"
    using n by (simp add: head_def sort_values_def c [symmetric] take_map)
  have hc: "columns ?h = top_scorer_columns"
    using select_columns_Inr(2) [OF s] by (simp add: head_def sort_values_def)
  have len: "length (rows out) = length (rows ?h)" by (rule insert_rank_Inr(1) [OF o])
  have "rows out = map2 (\<lambda>v r. r(''Rank'' := v)) (rank_cells (length (rows ?h))) (rows ?h)"
    using o by (auto simp: insert_rank_def split: if_splits)
  then have rows_out: "rows out = map2 (\<lambda>i r. (?cut r)(''Rank'' := Num (Fin (real i))))
                        [1..<Suc (length (rows out))] (take (nat n) ordered)"
    unfolding len unfolding h by (simp only: map2_rank_cells)
  have cols: "columns out = ''Rank'' # top_scorer_columns"
    using insert_rank_Inr(2) [OF o] hc by simp
  show ?thesis using m sorted cols rows_out by blast
qed

lemma top_scorers_points_from_input:
  assumes res: "analyze_top_scorers srt data n = Inr out" and srt: "sorts_descending srt"
  shows "set (column_values ''PTS'' out) \<subseteq> set (column_values ''PTS'' data)"
proof
  fix x assume x: "x \<in> set (column_values ''PTS'' out)"
  from analyze_top_scorers_Inr(3) [OF res] obtain sel
    where s: "select_columns top_scorer_columns data = Inr sel"
      and o: "insert_rank (head n (sort_values srt ''PTS'' sel)) = Inr out"
    by blast
  let ?h = "head n (sort_values srt ''PTS'' sel)"
  have "column_values ''PTS'' out = column_values ''PTS'' ?h"
    using insert_rank_Inr(3) [OF o, of "''PTS''"] by simp
  then obtain r where r: "r \<in> set (rows ?h)" and xr: "x = r ''PTS''"
    using x by (auto simp: column_values_def)
  have "r \<in> set (srt (\<lambda>r. num_of (r ''PTS'')) (rows sel))"
    using r by (auto simp: head_def sort_values_def dest: in_set_takeD)
  then have "r \<in> set (rows sel)" by (simp only: sorts_descending_set [OF srt])
  then have "x \<in> set (column_values ''PTS'' sel)" using xr by (simp add: column_values_def)
  then show "x \<in> set (column_values ''PTS'' data)"
    by (simp only: column_values_select [OF s PTS_top_scorer_column])
qed

lemma top_scorers_non_increasing:
  assumes srt: "sorts_descending srt" and n: "0 < n"
    and res: "analyze_top_scorers srt data n = Inr out"
    and nonan: "Num NaN \<notin> set (column_values ''PTS'' data)"
  shows "sorted_wrt (\<lambda>a b. fl_le (num_of (b ''PTS'')) (num_of (a ''PTS''))) (rows out)"
proof -
  have num: "numeric_column ''PTS'' data" by (rule analyze_top_scorers_Inr(2) [OF res])
  have ok: "num_of (r ''PTS'') \<noteq> NaN" if "r \<in> set (rows out)" for r
  proof -
    have "r ''PTS'' \<in> set (column_values ''PTS'' data)"
      using that top_scorers_points_from_input [OF res srt] by (auto simp: column_values_def)
    then have "r ''PTS'' \<noteq> Num NaN" "is_num (r ''PTS'')"
      using nonan num by (auto simp: numeric_column_def list_all_iff)
    then show ?thesis by (cases "r ''PTS''") auto
  qed
  show ?thesis
    by (rule sorted_wrt_mono_rel [OF _ top_scorers_props(2) [OF srt n res]])
       (simp add: desc_ordered_fl_le ok)
qed

text \<open>
  C2 (as amended). With any sorting algorithm that keeps the promise of \<open>sort_values\<close> and a
  positive \<open>n\<close>: on a table that has the six selected columns and no text in \<open>PTS\<close> the
  function returns a table of \<open>min n (number of rows)\<close> rows. Its rows are the first rows of
  an arrangement \<open>ordered\<close> of all the input's rows by \<open>PTS\<close>, each cut to the six columns
  and given its position as \<open>Rank\<close>, so \<open>Rank\<close> is \<open>1, 2, ..., length\<close>. The rows whose
  \<open>PTS\<close> is not missing are in non-increasing order of \<open>PTS\<close> and the rows whose \<open>PTS\<close> is
  missing come after them; when no \<open>PTS\<close> of the input is missing, the rows are in
  non-increasing order of \<open>PTS\<close> throughout. On any other table the function raises.
\<close>

theorem top_scorers_length_sorted_ranked:
  assumes "sorts_descending srt" and "0 < n"
  shows "if missing_columns top_scorer_columns data = [] \<and> numeric_column ''PTS'' data
         then \<exists>out ordered. analyze_top_scorers srt data n = Inr out \<and>
                mset ordered = mset (rows data) \<and>
                sorted_wrt (\<lambda>a b. desc_ordered (num_of (a ''PTS'')) (num_of (b ''PTS''))) ordered \<and>
                columns out = ''Rank'' # top_scorer_columns \<and>
                rows out = map2 (\<lambda>i r. (restrict_row top_scorer_columns r)(''Rank'' := Num (Fin (real i))))
                             [1..<Suc (length (rows out))] (take (nat n) ordered) \<and>
                length (rows out) = min (nat n) (length (rows data)) \<and>
                sorted_wrt (\<lambda>a b. desc_ordered (num_of (a ''PTS'')) (num_of (b ''PTS''))) (rows out) \<and>
                (Num NaN \<notin> set (column_values ''PTS'' data) \<longrightarrow>
                   sorted_wrt (\<lambda>a b. fl_le (num_of (b ''PTS'')) (num_of (a ''PTS''))) (rows out)) \<and>
                column_values ''Rank'' out = map (\<lambda>i. Num (Fin (real i))) [1..<Suc (length (rows out))]
         else \<exists>e. analyze_top_scorers srt data n = Inl e"
proof (cases "missing_columns top_scorer_columns data = [] \<and> numeric_column ''PTS'' data")
  case True
  then obtain out where o: "analyze_top_scorers srt data n = Inr out"
    using analyze_top_scorers_returns by blast
  from top_scorers_rows [OF assms o] obtain ordered where
    r: "mset ordered = mset (rows data)"
       "sorted_wrt (\<lambda>a b. desc_ordered (num_of (a ''PTS'')) (num_of (b ''PTS''))) ordered"
       "columns out = ''Rank'' # top_scorer_columns"
       "rows out = map2 (\<lambda>i r. (restrict_row top_scorer_columns r)(''Rank'' := Num (Fin (real i))))
                     [1..<Suc (length (rows out))] (take (nat n) ordered)"
    by blast
  show ?thesis unfolding if_P [OF True]
    using o r top_scorers_props [OF assms o] top_scorers_non_increasing [OF assms o] by blast
next
  case False
  show ?thesis unfolding if_not_P [OF False] by (rule analyze_top_scorers_raises [OF False])
qed

lemma scenario_a_top_scorers_ok:
  "missing_columns top_scorer_columns scenario_a = [] \<and> numeric_column ''PTS'' scenario_a"
  by (simp add: missing_columns_def top_scorer_columns_def scenario_a_def player_columns_def
      numeric_column_def column_values_def player_row_def mk_row_def)

lemma scenario_a_points_present: "Num NaN \<notin> set (column_values ''PTS'' scenario_a)"
  by (simp add: column_values_def scenario_a_def player_row_def mk_row_def)

theorem top_scorers_length_sorted_ranked_witness:
  "\<exists>out ordered. analyze_top_scorers stable_sort_desc scenario_a 2 = Inr out \<and>
     mset ordered = mset (rows scenario_a) \<and>
     rows out = map2 (\<lambda>i r. (restrict_row top_scorer_columns r)(''Rank'' := Num (Fin (real i))))
                  [1..<Suc (length (rows out))] (take (nat 2) ordered) \<and>
     length (rows out) = 2 \<and>
     sorted_wrt (\<lambda>a b. fl_le (num_of (b ''PTS'')) (num_of (a ''PTS''))) (rows out) \<and>
     column_values ''Rank'' out = [Num (Fin 1), Num (Fin 2)]"
proof -
  have n: "(0::int) < 2" by simp
  note T = top_scorers_length_sorted_ranked [OF stable_sort_desc_sorts n, of scenario_a,
      unfolded if_P [OF scenario_a_top_scorers_ok]]
  from T obtain out ordered where o: "analyze_top_scorers stable_sort_desc scenario_a 2 = Inr out"
    and m: "mset ordered = mset (rows scenario_a)"
    and ro: "rows out = map2 (\<lambda>i r. (restrict_row top_scorer_columns r)(''Rank'' := Num (Fin (real i))))
                  [1..<Suc (length (rows out))] (take (nat 2) ordered)"
    and l: "length (rows out) = min (nat 2) (length (rows scenario_a))"
    and s: "sorted_wrt (\<lambda>a b. fl_le (num_of (b ''PTS'')) (num_of (a ''PTS''))) (rows out)"
    and r: "column_values ''Rank'' out = map (\<lambda>i. Num (Fin (real i))) [1..<Suc (length (rows out))]"
    using scenario_a_points_present by blast
  have l2: "length (rows out) = 2" using l by (simp add: scenario_a_def)
  have "column_values ''Rank'' out = [Num (Fin 1), Num (Fin 2)]"
    unfolding r l2 by (simp add: upt_rec)
  then show ?thesis using o m ro l2 s by blast
qed

section \<open>Properties of analyze_team_performance\<close>

lemma add_ppg_Inr:
  assumes "add_ppg t = Inr t'"
  shows "rows t' = map with_ppg (rows t)"
    and "set (columns t') = insert ''PPG'' (set (columns t))"
    and "''PTS'' \<in> set (columns t)" and "''G'' \<in> set (columns t)"
    and "numeric_column ''PTS'' t" and "numeric_column ''G'' t"
  using assms by (auto simp: add_ppg_def with_ppg_def ppg_of_def split: if_splits)

lemma add_ppg_returns:
  assumes "''PTS'' \<in> set (columns t)" and "''G'' \<in> set (columns t)"
    and "numeric_column ''PTS'' t" and "numeric_column ''G'' t"
  shows "\<exists>t'. add_ppg t = Inr t'"
  using assms by (simp add: add_ppg_def)

lemma cleaned_columns:
  assumes "cleaned t"
  shows "''Player'' \<in> set (columns t)" "''Tm'' \<in> set (columns t)"
    "''PTS'' \<in> set (columns t)" "''G'' \<in> set (columns t)"
  using assms by (auto simp: cleaned_def missing_columns_def split: if_splits)

lemma cleaned_rows: "cleaned t \<Longrightarrow> r \<in> set (rows t) \<Longrightarrow> cleaned_row r"
  by (simp add: cleaned_def list_all_iff)

lemma cleaned_numeric:
  assumes "cleaned t"
  shows "numeric_column ''PTS'' t" and "numeric_column ''G'' t"
  using assms
  by (auto simp: cleaned_def numeric_column_def column_values_def list_all_iff cleaned_row_def)

lemma cleaned_add_ppg: "cleaned t \<Longrightarrow> \<exists>t'. add_ppg t = Inr t'"
  by (intro add_ppg_returns cleaned_columns cleaned_numeric)

lemma with_ppg_apply: "with_ppg r c = (if c = ''PPG'' then Num (ppg_of r) else r c)"
  by (simp add: with_ppg_def)

lemma group_of_with_ppg:
  "rows t' = map with_ppg (rows t) \<Longrightarrow> group_of t' k = map with_ppg (team_rows t k)"
  by (simp add: group_of_def team_rows_def filter_map comp_def with_ppg_apply)

lemma num_values_with_ppg:
  "num_values c (map with_ppg rs) = (if c = ''PPG'' then map ppg_of rs else num_values c rs)"
  by (simp add: num_values_def comp_def with_ppg_apply)

lemma player_with_ppg: "map (\<lambda>r. r ''Player'') (map with_ppg rs) = map (\<lambda>r. r ''Player'') rs"
  by (simp add: comp_def with_ppg_apply)

lemma column_values_with_ppg:
  "rows t' = map with_ppg (rows t) \<Longrightarrow> column_values ''Tm'' t' = column_values ''Tm'' t"
  by (simp add: column_values_def comp_def with_ppg_apply)

lemma agg_count_all: "list_all (\<lambda>c. \<not> isna c) cs \<Longrightarrow> agg_count cs = length cs"
  by (simp add: agg_count_def list_all_iff)

lemma agg_sum_no_nan: "NaN \<notin> set xs \<Longrightarrow> agg_sum xs = fl_sum xs"
proof -
  assume "NaN \<notin> set xs"
  then have "filter (\<lambda>x. x \<noteq> NaN) xs = xs" by (auto simp: filter_id_conv)
  then show ?thesis by (simp add: agg_sum_def skipna_def)
qed

lemma agg_mean_plain: "agg_mean xs = plain_mean (skipna xs)"
  by (simp add: agg_mean_def plain_mean_def)

lemma set_insert_key: "set (insert_key k ks) = insert k (set ks)"
  by (induction ks) auto

lemma set_sort_keys: "set (sort_keys ks) = set ks"
  by (induction ks) (auto simp: set_insert_key)

lemma distinct_insert_key: "distinct (insert_key k ks) = (k \<notin> set ks \<and> distinct ks)"
  by (induction ks) (auto simp: set_insert_key)

lemma distinct_sort_keys: "distinct (sort_keys ks) = distinct ks"
  by (induction ks) (auto simp: distinct_insert_key set_sort_keys)

lemma distinct_group_keys: "distinct (group_keys t)"
  by (simp add: group_keys_def distinct_sort_keys)

lemma set_group_keys: "set (group_keys t) = {c \<in> set (column_values ''Tm'' t). \<not> isna c}"
  by (auto simp: group_keys_def set_sort_keys)

lemma team_row_apply:
  "team_row t k ''Team'' = k"
  "team_row t k ''Avg_PPG_Per_Player'' = Num (agg_mean (num_values ''PPG'' (group_of t k)))"
  "team_row t k ''Total_Players'' =
     Num (Fin (real (agg_count (map (\<lambda>r. r ''Player'') (group_of t k)))))"
  "team_row t k ''Total_Points'' = Num (agg_sum (num_values ''PTS'' (group_of t k)))"
  "team_row t k ''Avg_Games_Played'' = Num (agg_mean (num_values ''G'' (group_of t k)))"
  by (simp_all add: team_row_def)

lemma groupby_agg_Inr:
  assumes "''Tm'' \<in> set (columns t)" and "''Player'' \<in> set (columns t)"
  shows "groupby_agg t = Inr \<lparr>columns = team_columns, rows = map (team_row t) (group_keys t)\<rparr>"
  using assms by (simp add: groupby_agg_def)

lemma Rank_not_team_column: "''Rank'' \<notin> set team_columns"
  by (simp add: team_columns_def)

lemma in_map2_update:
  "o' \<in> set (map2 (\<lambda>v r. r(k := v)) vs rs) \<Longrightarrow> \<exists>v r. r \<in> set rs \<and> o' = r(k := v)"
  by (auto dest: set_zip_rightD)

lemma insert_rank_rows:
  assumes "insert_rank t = Inr out" and "o' \<in> set (rows out)"
  shows "\<exists>v r. r \<in> set (rows t) \<and> o' = r(''Rank'' := v)"
proof -
  from assms(1) have "rows out =
      map2 (\<lambda>v r. r(''Rank'' := v)) (rank_cells (length (rows t))) (rows t)"
    by (auto simp: insert_rank_def split: if_splits)
  then show ?thesis using assms(2) in_map2_update by metis
qed


lemma rank_teams_ranked:
  assumes "''Tm'' \<in> set (columns t')" and "''Player'' \<in> set (columns t')"
  shows "\<exists>ranked. insert_rank (sort_values srt ''Avg_PPG_Per_Player''
             \<lparr>columns = team_columns, rows = map (team_row t') (group_keys t')\<rparr>) = Inr ranked \<and>
           rank_teams srt t' = (if rows ranked = [] then Inl IndexError else Inr ranked)"
proof -
  let ?ts = "\<lparr>columns = team_columns, rows = map (team_row t') (group_keys t')\<rparr>"
  have "columns (sort_values srt ''Avg_PPG_Per_Player'' ?ts) = team_columns"
    by (simp add: sort_values_def)
  then obtain ranked where r: "insert_rank (sort_values srt ''Avg_PPG_Per_Player'' ?ts) = Inr ranked"
    using Rank_not_team_column by (simp add: insert_rank_def)
  then show ?thesis using groupby_agg_Inr [OF assms] by (simp add: rank_teams_def)
qed

lemma team_stats_shape:
  assumes srt: "sorts_descending srt" and cl: "cleaned t"
  shows "\<exists>t' ranked.
           analyze_team_performance srt t =
             (t', if rows ranked = [] then Inl IndexError else Inr ranked) \<and>
           rows t' = map with_ppg (rows t) \<and>
           set (columns t') = insert ''PPG'' (set (columns t)) \<and>
           insert_rank (sort_values srt ''Avg_PPG_Per_Player''
             \<lparr>columns = team_columns, rows = map (team_row t') (group_keys t')\<rparr>) = Inr ranked"
proof -
  obtain t' where a: "add_ppg t = Inr t'" using cleaned_add_ppg [OF cl] by blast
  note A = add_ppg_Inr [OF a]
  have "''Tm'' \<in> set (columns t')" "''Player'' \<in> set (columns t')"
    using A(2) cleaned_columns [OF cl] by auto
  from rank_teams_ranked [OF this, of srt] obtain ranked where
    r: "insert_rank (sort_values srt ''Avg_PPG_Per_Player''
             \<lparr>columns = team_columns, rows = map (team_row t') (group_keys t')\<rparr>) = Inr ranked"
    and k: "rank_teams srt t' = (if rows ranked = [] then Inl IndexError else Inr ranked)"
    by blast
  have "analyze_team_performance srt t = (t', if rows ranked = [] then Inl IndexError else Inr ranked)"
    using a k by (simp add: analyze_team_performance_def)
  then show ?thesis using A(1,2) r by blast
qed

lemma cleaned_team_row:
  assumes cl: "cleaned t" and t': "rows t' = map with_ppg (rows t)"
  shows "team_row t' k ''Team'' = k"
    and "team_row t' k ''Total_Players'' = Num (Fin (real (length (team_rows t k))))"
    and "team_row t' k ''Total_Points'' = Num (fl_sum (num_values ''PTS'' (team_rows t k)))"
    and "team_row t' k ''Avg_PPG_Per_Player'' = Num (plain_mean (skipna (map ppg_of (team_rows t k))))"
    and "team_row t' k ''Avg_Games_Played'' = Num (agg_mean (num_values ''G'' (team_rows t k)))"
proof -
  note g = group_of_with_ppg [OF t', of k]
  have in_t: "r \<in> set (rows t)" if "r \<in> set (team_rows t k)" for r
    using that by (simp add: team_rows_def)
  have "list_all (\<lambda>c. \<not> isna c) (map (\<lambda>r. r ''Player'') (team_rows t k))"
    using cleaned_rows [OF cl in_t] by (auto simp: list_all_iff cleaned_row_def)
  then have players: "agg_count (map (\<lambda>r. r ''Player'') (team_rows t k)) = length (team_rows t k)"
    using agg_count_all by fastforce
  have pts: "num_of (r ''PTS'') \<noteq> NaN" if "r \<in> set (team_rows t k)" for r
    using cleaned_rows [OF cl in_t [OF that]]
    by (cases "r ''PTS''") (auto simp: cleaned_row_def isna_def)
  have "NaN \<notin> set (num_values ''PTS'' (team_rows t k))"
  proof
    assume "NaN \<in> set (num_values ''PTS'' (team_rows t k))"
    then obtain r where "r \<in> set (team_rows t k)" and "num_of (r ''PTS'') = NaN"
      by (auto simp: num_values_def)
    then show False using pts by blast
  qed
  then have points: "agg_sum (num_values ''PTS'' (team_rows t k)) = fl_sum (num_values ''PTS'' (team_rows t k))"
    by (rule agg_sum_no_nan)
  have e_players: "map (\<lambda>r. r ''Player'') (group_of t' k) = map (\<lambda>r. r ''Player'') (team_rows t k)"
    unfolding g by (rule player_with_ppg)
  have e_pts: "num_values ''PTS'' (group_of t' k) = num_values ''PTS'' (team_rows t k)"
    unfolding g by (simp add: num_values_with_ppg)
  have e_g: "num_values ''G'' (group_of t' k) = num_values ''G'' (team_rows t k)"
    unfolding g by (simp add: num_values_with_ppg)
  have e_ppg: "num_values ''PPG'' (group_of t' k) = map ppg_of (team_rows t k)"
    unfolding g by (simp add: num_values_with_ppg)
  show "team_row t' k ''Team'' = k" by (rule team_row_apply)
  show "team_row t' k ''Total_Players'' = Num (Fin (real (length (team_rows t k))))"
    by (simp only: team_row_apply e_players players)
  show "team_row t' k ''Total_Points'' = Num (fl_sum (num_values ''PTS'' (team_rows t k)))"
    by (simp only: team_row_apply e_pts points)
  show "team_row t' k ''Avg_PPG_Per_Player'' = Num (plain_mean (skipna (map ppg_of (team_rows t k))))"
    by (simp only: team_row_apply e_ppg agg_mean_plain)
  show "team_row t' k ''Avg_Games_Played'' = Num (agg_mean (num_values ''G'' (team_rows t k)))"
    by (simp only: team_row_apply e_g)
qed

lemma cleaned_group_keys:
  assumes cl: "cleaned t" and t': "rows t' = map with_ppg (rows t)"
  shows "set (group_keys t') = set (column_values ''Tm'' t)"
proof -
  have "\<not> isna c" if "c \<in> set (column_values ''Tm'' t)" for c
    using that cleaned_rows [OF cl] by (auto simp: column_values_def cleaned_row_def)
  then show ?thesis
    by (auto simp: set_group_keys column_values_with_ppg [OF t'])
qed

lemma ranked_teams:
  assumes srt: "sorts_descending srt" and cl: "cleaned t"
    and t': "rows t' = map with_ppg (rows t)"
    and r: "insert_rank (sort_values srt ''Avg_PPG_Per_Player''
             \<lparr>columns = team_columns, rows = map (team_row t') (group_keys t')\<rparr>) = Inr ranked"
  shows "distinct (column_values ''Team'' ranked)"
    and "set (column_values ''Team'' ranked) = set (column_values ''Tm'' t)"
    and "\<And>o'. o' \<in> set (rows ranked) \<Longrightarrow> \<exists>v k. o' = (team_row t' k)(''Rank'' := v)"
    and "sorted_wrt (\<lambda>a b. desc_ordered (num_of (a ''Avg_PPG_Per_Player''))
            (num_of (b ''Avg_PPG_Per_Player''))) (rows ranked)"
    and "column_values ''Rank'' ranked = map (\<lambda>i. Num (Fin (real i))) [1..<Suc (length (rows ranked))]"
proof -
  let ?key = "\<lambda>r. num_of (r ''Avg_PPG_Per_Player'')"
  let ?rs = "map (team_row t') (group_keys t')"
  let ?sorted = "sort_values srt ''Avg_PPG_Per_Player'' \<lparr>columns = team_columns, rows = ?rs\<rparr>"
  have rows_sorted: "rows ?sorted = srt ?key ?rs" by (simp add: sort_values_def)
  have m: "mset (srt ?key ?rs) = mset ?rs" using srt by (simp add: sorts_descending_def)
  have "mset (map (\<lambda>r. r ''Team'') (srt ?key ?rs)) = mset (map (\<lambda>r. r ''Team'') ?rs)"
    by (simp only: mset_map m)
  also have "map (\<lambda>r. r ''Team'') ?rs = group_keys t'"
    by (simp add: comp_def team_row_apply)
  finally have teams: "mset (column_values ''Team'' ?sorted) = mset (group_keys t')"
    by (simp add: column_values_def rows_sorted)
  have same: "column_values ''Team'' ranked = column_values ''Team'' ?sorted"
    using insert_rank_Inr(3) [OF r, of "''Team''"] by simp
  have "distinct (column_values ''Team'' ?sorted) = distinct (group_keys t')"
    by (rule mset_eq_imp_distinct_iff [OF teams])
  then show "distinct (column_values ''Team'' ranked)"
    unfolding same by (simp add: distinct_group_keys)
  have "set (column_values ''Team'' ?sorted) = set (group_keys t')"
    by (rule mset_eq_setD [OF teams])
  then show "set (column_values ''Team'' ranked) = set (column_values ''Tm'' t)"
    unfolding same by (simp only: cleaned_group_keys [OF cl t'])
  show "\<exists>v k. o' = (team_row t' k)(''Rank'' := v)" if "o' \<in> set (rows ranked)" for o'
  proof -
    from insert_rank_rows [OF r that] obtain v r0 where
      "r0 \<in> set (rows ?sorted)" and o: "o' = r0(''Rank'' := v)" by blast
    then have "r0 \<in> set ?rs" using sorts_descending_set [OF srt] by (simp add: rows_sorted)
    then show ?thesis using o by auto
  qed
  have "sorted_wrt (\<lambda>a b. desc_ordered (?key a) (?key b)) (rows ?sorted)"
    unfolding rows_sorted by (rule sorts_descending_sorted [OF srt])
  moreover have "column_values ''Avg_PPG_Per_Player'' ranked = column_values ''Avg_PPG_Per_Player'' ?sorted"
    using insert_rank_Inr(3) [OF r, of "''Avg_PPG_Per_Player''"] by simp
  ultimately show "sorted_wrt (\<lambda>a b. desc_ordered (?key a) (?key b)) (rows ranked)"
    by (simp add: sorted_by_column)
  show "column_values ''Rank'' ranked = map (\<lambda>i. Num (Fin (real i))) [1..<Suc (length (rows ranked))]"
    using insert_rank_Inr(1) [OF r] insert_rank_Inr(3) [OF r, of "''Rank''"]
    by (simp add: rank_cells_def)
qed

lemma ranked_nonempty:
  assumes srt: "sorts_descending srt" and cl: "cleaned t" and ne: "rows t \<noteq> []"
    and t': "rows t' = map with_ppg (rows t)"
    and r: "insert_rank (sort_values srt ''Avg_PPG_Per_Player''
             \<lparr>columns = team_columns, rows = map (team_row t') (group_keys t')\<rparr>) = Inr ranked"
  shows "rows ranked \<noteq> []"
proof -
  have "set (column_values ''Tm'' t) \<noteq> {}" using ne by (simp add: column_values_def)
  then have "set (column_values ''Team'' ranked) \<noteq> {}"
    using ranked_teams(2) [OF srt cl t' r] by simp
  then show ?thesis by (auto simp: column_values_def)
qed

lemma update_other: "c \<noteq> k \<Longrightarrow> (f(k := v)) c = f c"
  by simp

lemma ranked_row_correct:
  assumes cl: "cleaned t" and t': "rows t' = map with_ppg (rows t)"
    and o: "o' = (team_row t' k)(''Rank'' := v)"
  shows "o' ''Team'' = k"
    and "o' ''Total_Players'' = Num (Fin (real (length (team_rows t (o' ''Team'')))))"
    and "o' ''Total_Points'' = Num (fl_sum (num_values ''PTS'' (team_rows t (o' ''Team''))))"
    and "o' ''Avg_PPG_Per_Player'' =
           Num (plain_mean (filter (\<lambda>x. x \<noteq> NaN) (map ppg_of (team_rows t (o' ''Team'')))))"
proof -
  show team: "o' ''Team'' = k" unfolding o by (simp add: cleaned_team_row(1) [OF cl t'])
  show "o' ''Total_Players'' = Num (Fin (real (length (team_rows t (o' ''Team'')))))"
    unfolding team unfolding o by (simp add: cleaned_team_row(2) [OF cl t'])
  show "o' ''Total_Points'' = Num (fl_sum (num_values ''PTS'' (team_rows t (o' ''Team''))))"
    unfolding team unfolding o by (simp add: cleaned_team_row(3) [OF cl t'])
  show "o' ''Avg_PPG_Per_Player'' =
           Num (plain_mean (filter (\<lambda>x. x \<noteq> NaN) (map ppg_of (team_rows t (o' ''Team'')))))"
    unfolding team unfolding o by (simp add: cleaned_team_row(4) [OF cl t'] skipna_def)
qed

text \<open>
  C1 (as amended). With any sorting algorithm that keeps the promise of \<open>sort_values\<close>, on a
  cleaned table with at least one row whose \<open>PTS\<close> stay within int64 when summed
  (\<open>pts_within_int64\<close>: the code's sum of an int64 column would wrap around otherwise) the
  function returns a table with exactly one row per distinct \<open>Tm\<close> of the input. For each team, \<open>Total_Players\<close> is the number of input rows of
  that team and \<open>Total_Points\<close> the sum of their \<open>PTS\<close>; \<open>Avg_PPG_Per_Player\<close> is the mean of
  \<open>PTS / G\<close> over those rows of the team where that quotient is not NaN (NaN when there is
  none). The rows are sorted by \<open>Avg_PPG_Per_Player\<close> non-increasing, teams whose average is
  NaN last, and \<open>Rank\<close> is \<open>1, 2, ..., number of teams\<close>.
\<close>

theorem team_performance_table:
  assumes srt: "sorts_descending srt" and cl: "cleaned t" and ne: "rows t \<noteq> []"
    and rng: "pts_within_int64 t"
  shows "\<exists>out. snd (analyze_team_performance srt t) = Inr out \<and>
           distinct (column_values ''Team'' out) \<and>
           set (column_values ''Team'' out) = set (column_values ''Tm'' t) \<and>
           length (rows out) = card (set (column_values ''Tm'' t)) \<and>
           list_all (\<lambda>tr. tr ''Total_Players'' = Num (Fin (real (length (team_rows t (tr ''Team''))))) \<and>
                         tr ''Total_Points'' = Num (fl_sum (num_values ''PTS'' (team_rows t (tr ''Team'')))) \<and>
                         tr ''Avg_PPG_Per_Player'' =
                           Num (plain_mean (filter (\<lambda>x. x \<noteq> NaN) (map ppg_of (team_rows t (tr ''Team''))))))
             (rows out) \<and>
           sorted_wrt (\<lambda>a b. desc_ordered (num_of (a ''Avg_PPG_Per_Player''))
                                (num_of (b ''Avg_PPG_Per_Player''))) (rows out) \<and>
           column_values ''Rank'' out = map (\<lambda>i. Num (Fin (real i))) [1..<Suc (length (rows out))]"
proof -
  from team_stats_shape [OF srt cl] obtain t' ranked where
    a: "analyze_team_performance srt t = (t', if rows ranked = [] then Inl IndexError else Inr ranked)"
    and t': "rows t' = map with_ppg (rows t)"
    and r: "insert_rank (sort_values srt ''Avg_PPG_Per_Player''
             \<lparr>columns = team_columns, rows = map (team_row t') (group_keys t')\<rparr>) = Inr ranked"
    by blast
  note R = ranked_teams [OF srt cl t' r]
  have "rows ranked \<noteq> []" by (rule ranked_nonempty [OF srt cl ne t' r])
  then have res: "snd (analyze_team_performance srt t) = Inr ranked" using a by simp
  have "length (rows ranked) = length (column_values ''Team'' ranked)"
    by (simp add: column_values_def)
  also have "\<dots> = card (set (column_values ''Team'' ranked))"
    using R(1) by (simp add: distinct_card)
  finally have len: "length (rows ranked) = card (set (column_values ''Tm'' t))"
    by (simp only: R(2))
  have rows_ok: "list_all (\<lambda>tr. tr ''Total_Players'' = Num (Fin (real (length (team_rows t (tr ''Team''))))) \<and>
                         tr ''Total_Points'' = Num (fl_sum (num_values ''PTS'' (team_rows t (tr ''Team'')))) \<and>
                         tr ''Avg_PPG_Per_Player'' =
                           Num (plain_mean (filter (\<lambda>x. x \<noteq> NaN) (map ppg_of (team_rows t (tr ''Team''))))))
             (rows ranked)"
    unfolding list_all_iff
  proof
    fix o' assume "o' \<in> set (rows ranked)"
    then obtain v k where o: "o' = (team_row t' k)(''Rank'' := v)" using R(3) by blast
    show "o' ''Total_Players'' = Num (Fin (real (length (team_rows t (o' ''Team''))))) \<and>
          o' ''Total_Points'' = Num (fl_sum (num_values ''PTS'' (team_rows t (o' ''Team'')))) \<and>
          o' ''Avg_PPG_Per_Player'' =
            Num (plain_mean (filter (\<lambda>x. x \<noteq> NaN) (map ppg_of (team_rows t (o' ''Team'')))))"
      using ranked_row_correct(2,3,4) [OF cl t' o] by blast
  qed
  show ?thesis using res R(1,2) len rows_ok R(4,5) by blast
qed

lemma cleaned_scenario_a: "cleaned scenario_a"
  by (simp add: cleaned_def cleaned_row_def missing_columns_def scenario_a_def player_columns_def
      player_row_def mk_row_def isna_def)

theorem team_performance_table_witness:
  "\<exists>out. snd (analyze_team_performance stable_sort_desc scenario_a) = Inr out \<and>
     distinct (column_values ''Team'' out) \<and>
     set (column_values ''Team'' out) = set (column_values ''Tm'' scenario_a) \<and>
     length (rows out) = card (set (column_values ''Tm'' scenario_a)) \<and>
     list_all (\<lambda>tr. tr ''Total_Players'' = Num (Fin (real (length (team_rows scenario_a (tr ''Team''))))) \<and>
                   tr ''Total_Points'' = Num (fl_sum (num_values ''PTS'' (team_rows scenario_a (tr ''Team'')))) \<and>
                   tr ''Avg_PPG_Per_Player'' =
                     Num (plain_mean (filter (\<lambda>x. x \<noteq> NaN) (map ppg_of (team_rows scenario_a (tr ''Team''))))))
       (rows out) \<and>
     sorted_wrt (\<lambda>a b. desc_ordered (num_of (a ''Avg_PPG_Per_Player''))
                          (num_of (b ''Avg_PPG_Per_Player''))) (rows out) \<and>
     column_values ''Rank'' out = map (\<lambda>i. Num (Fin (real i))) [1..<Suc (length (rows out))]"
proof -
  have ne: "rows scenario_a \<noteq> []" by (simp add: scenario_a_def)
  have rng: "pts_within_int64 scenario_a"
    by (simp add: pts_within_int64_def num_values_def scenario_a_def player_row_def mk_row_def)
  show ?thesis
    by (rule team_performance_table [OF stable_sort_desc_sorts cleaned_scenario_a ne rng])
qed


subsection \<open>Evaluating the examples\<close>

lemmas team_eval =
  analyze_team_performance_def add_ppg_def rank_teams_def groupby_agg_def insert_rank_def
  sort_values_def group_keys_def group_of_def team_row_def team_columns_def num_values_def
  agg_mean_def agg_sum_def agg_count_def skipna_def rank_cells_def numeric_column_def
  column_values_def result_column_def isna_def desc_ordered_def
  player_columns_def player_row_def mk_row_def

lemmas top_eval =
  analyze_top_scorers_def select_columns_def missing_columns_def top_scorer_columns_def
  restrict_row_def numeric_column_def column_values_def sort_values_def head_def
  insert_rank_def rank_cells_def result_column_def desc_ordered_def
  player_columns_def player_row_def mk_row_def

lemma zero_games_avg:
  "result_column ''Avg_PPG_Per_Player'' (snd (analyze_team_performance stable_sort_desc zero_games))
     = Inr [Num (Fin 10)]"
  by (simp add: team_eval zero_games_def)



lemma zero_games_plain_mean:
  "plain_mean (map ppg_of (team_rows zero_games (Str ''X''))) = NaN"
  by (simp add: plain_mean_def ppg_of_def team_rows_def zero_games_def player_row_def mk_row_def)

lemma cleaned_zero_games: "cleaned zero_games"
  by (simp add: cleaned_def cleaned_row_def missing_columns_def zero_games_def player_columns_def
      player_row_def mk_row_def isna_def)

lemma scenario_a_avg:
  "result_column ''Avg_PPG_Per_Player'' (snd (analyze_team_performance stable_sort_desc scenario_a))
     = Inr [Num (Fin 20), Num (Fin 5)]"
  by (simp add: team_eval scenario_a_def)

lemma scenario_a_columns_after:
  "columns (fst (analyze_team_performance stable_sort_desc scenario_a)) = player_columns @ [''PPG'']"
  by (simp add: team_eval scenario_a_def)

lemma main_report_columns:
  "map_option columns (report_data (main stable_sort_desc parse_decimal sample_files sample_reader))
     = Some (player_columns @ [''PPG''])"
  by (simp add: main_def load_data_def sample_files_def sample_reader_def preview_data_def
      clean_data_def dropna_def complete_in_def numeric_columns_def assign_numeric_def
      top_eval team_eval scenario_a_def halted_def)

text \<open>
  C1, as the claim states it, fails: in the cleaned table \<open>zero_games\<close> team X has the rows
  \<open>PTS = 0, G = 0\<close> and \<open>PTS = 10, G = 1\<close>, whose quotients are NaN and 10. Their arithmetic
  mean is NaN; the function reports 10, the mean of the one quotient that is a number.
\<close>

theorem plain_mean_counterexample:
  "cleaned zero_games \<and>
   result_column ''Team'' (snd (analyze_team_performance stable_sort_desc zero_games))
     = Inr [Str ''X''] \<and>
   result_column ''Avg_PPG_Per_Player'' (snd (analyze_team_performance stable_sort_desc zero_games))
     = Inr [Num (Fin 10)] \<and>
   plain_mean (map ppg_of (team_rows zero_games (Str ''X''))) = NaN"
proof -
  have "result_column ''Team'' (snd (analyze_team_performance stable_sort_desc zero_games))
     = Inr [Str ''X'']"
    by (simp add: team_eval zero_games_def)
  then show ?thesis using cleaned_zero_games zero_games_avg zero_games_plain_mean by simp
qed

subsection \<open>Rows with no games\<close>







subsection \<open>The table without rows\<close>

text \<open>
  C10. On a table without rows the function raises: KeyError when one of the columns it
  reads is absent, and otherwise IndexError, from \<open>team_stats.iloc[0]\<close> on the empty
  aggregated table. It never returns an empty team table.
\<close>

lemma sorts_descending_Nil: "sorts_descending srt \<Longrightarrow> srt key [] = []"
  using sorts_descending_length [of srt key "[]"] by simp

theorem empty_table_raises:
  assumes "sorts_descending srt" and "rows t = []"
  shows "snd (analyze_team_performance srt t) =
           Inl (if ''PTS'' \<notin> set (columns t) then KeyError [''PTS'']
                else if ''G'' \<notin> set (columns t) then KeyError [''G'']
                else if ''Tm'' \<notin> set (columns t) then KeyError [''Tm'']
                else if ''Player'' \<notin> set (columns t) then KeyError [''Player'']
                else IndexError)"
  using assms(2) sorts_descending_Nil [OF assms(1)]
  by (simp add: analyze_team_performance_def add_ppg_def rank_teams_def groupby_agg_def
      insert_rank_def sort_values_def group_keys_def team_columns_def numeric_column_def
      column_values_def rank_cells_def)

theorem empty_table_raises_witness:
  "snd (analyze_team_performance stable_sort_desc no_rows) = Inl IndexError"
proof -
  have r: "rows no_rows = []" by (simp add: no_rows_def)
  show ?thesis using empty_table_raises [OF stable_sort_desc_sorts r]
    by (simp add: no_rows_def player_columns_def)
qed

subsection \<open>The caller's frame\<close>

lemma add_ppg_changes_columns:
  assumes "add_ppg t = Inr t'" and "''PPG'' \<notin> set (columns t)"
  shows "fst (analyze_team_performance srt t) = t'" and "columns t' = columns t @ [''PPG'']"
  using assms by (auto simp: analyze_team_performance_def add_ppg_def split: if_splits)

text \<open>
  C5. \<open>clean_data\<close> returns Scenario A with its six columns; after
  \<open>analyze_team_performance\<close> the same frame has a seventh column \<open>PPG\<close>, and that is the
  frame \<open>main\<close> passes to \<open>generate_summary_report\<close>.
\<close>

theorem team_performance_changes_callers_table:
  "result_columns (clean_data parse_decimal scenario_a) = Inr player_columns \<and>
   columns (fst (analyze_team_performance stable_sort_desc scenario_a)) = player_columns @ [''PPG''] \<and>
   map_option columns (report_data (main stable_sort_desc parse_decimal sample_files sample_reader))
     = Some (player_columns @ [''PPG''])"
proof -
  have "result_columns (clean_data parse_decimal scenario_a) = Inr player_columns"
    by (simp add: result_columns_def clean_data_def dropna_def missing_columns_def scenario_a_def
        player_columns_def columns_coerce_columns)
  then show ?thesis using scenario_a_columns_after main_report_columns by simp
qed

section \<open>A second cleaning\<close>

lemma coerce_columns_eq:
  "coerce_columns parse cs t = t\<lparr>rows := map (coerce_row parse (columns t) cs) (rows t)\<rparr>"
proof (induction cs arbitrary: t)
  case Nil
  then show ?case by simp
next
  case (Cons c cs)
  show ?case
  proof (cases "c \<in> set (columns t)")
    case True
    then show ?thesis using Cons [of "t\<lparr>rows := map (assign_numeric parse c) (rows t)\<rparr>"]
      by (simp add: comp_def)
  next
    case False
    then show ?thesis using Cons [of t] by simp
  qed
qed

lemma to_numeric_is_num: "is_num c \<Longrightarrow> to_numeric parse c = c"
  by (cases c) simp_all

text \<open>
  Apart from rows whose \<open>G\<close> became missing, cleaning twice is cleaning once: when no \<open>G\<close>
  of the cleaned frame is missing, \<open>clean_data\<close> returns that frame unchanged.
\<close>

theorem clean_data_again:
  assumes c: "clean_data parse data = Inr out"
    and g: "list_all (\<lambda>r. \<not> isna (r ''G'')) (rows out)"
  shows "clean_data parse out = Inr out"
proof -
  have cl: "cleaned out" by (rule clean_data_cleaned [OF c])
  have cols: "missing_columns [''Player'', ''Tm'', ''PTS'', ''G''] out = []"
    using cl by (simp add: cleaned_def)
  have pts_col: "missing_columns [''PTS''] out = []"
    using cols by (auto simp: missing_columns_def split: if_splits)
  have complete: "complete_in [''Player'', ''Tm'', ''PTS'', ''G''] r \<and> complete_in [''PTS''] r"
    if "r \<in> set (rows out)" for r
    using cleaned_rows [OF cl that] g that
    by (simp add: complete_in_def cleaned_row_def list_all_iff)
  have fixed: "coerce_row parse (columns out) numeric_columns r = r" if "r \<in> set (rows out)" for r
  proof
    fix col
    show "coerce_row parse (columns out) numeric_columns r col = r col"
    proof (cases "col \<in> set numeric_columns \<and> col \<in> set (columns out)")
      case True
      then have "numeric_column col out" using clean_data_numeric [OF c] by blast
      then have "is_num (r col)" using that
        by (simp add: numeric_column_def column_values_def list_all_iff)
      then show ?thesis
        using True by (simp add: coerce_row_apply [OF distinct_numeric_columns] to_numeric_is_num)
    next
      case False
      then show ?thesis
        unfolding coerce_row_apply [OF distinct_numeric_columns] by (simp only: if_False)
    qed
  qed
  have f1: "filter (complete_in [''Player'', ''Tm'', ''PTS'', ''G'']) (rows out) = rows out"
    using complete by (simp add: filter_id_conv)
  have f2: "filter (complete_in [''PTS'']) (rows out) = rows out"
    using complete by (simp add: filter_id_conv)
  have m: "map (coerce_row parse (columns out) numeric_columns) (rows out) = rows out"
    using fixed by (simp add: map_idI)
  have d1: "dropna [''Player'', ''Tm'', ''PTS'', ''G''] out = Inr out"
    using cols by (simp add: dropna_def f1)
  have co: "coerce_columns parse numeric_columns out = out"
    by (simp add: coerce_columns_eq m)
  have d2: "dropna [''PTS''] out = Inr out"
    using pts_col by (simp add: dropna_def f2)
  show ?thesis by (simp add: clean_data_def d1 co d2)
qed

lemma scenario_a_cleans:
  "\<exists>out. clean_data parse_decimal scenario_a = Inr out \<and> list_all (\<lambda>r. \<not> isna (r ''G'')) (rows out)"
  by (simp add: clean_data_def dropna_def missing_columns_def scenario_a_def player_columns_def
      complete_in_def isna_def player_row_def mk_row_def numeric_columns_def assign_numeric_def)

theorem clean_data_again_witness:
  "\<exists>out. clean_data parse_decimal scenario_a = Inr out \<and> clean_data parse_decimal out = Inr out"
proof -
  obtain out where c: "clean_data parse_decimal scenario_a = Inr out"
    and g: "list_all (\<lambda>r. \<not> isna (r ''G'')) (rows out)"
    using scenario_a_cleans by blast
  from clean_data_again [OF c g] show ?thesis using c by blast
qed

section \<open>Properties of load_data and main\<close>

text \<open>
  C8. When the data file does not exist, \<open>load_data\<close> returns \<open>None\<close> and \<open>main\<close> returns
  at once: no stage after loading runs, no image is written, nothing is raised.
\<close>

theorem missing_file_halts:
  assumes "fs ''data/NBA_Player_Stats.csv'' = None"
  shows "load_data fs read_csv ''data/NBA_Player_Stats.csv'' = None \<and>
         main srt parse fs read_csv =
           \<lparr>completed = [], images = [], raised = None, report_data = None\<rparr>"
  using assms by (simp add: load_data_def main_def halted_def)

theorem missing_file_halts_witness:
  "load_data no_files sample_reader ''data/NBA_Player_Stats.csv'' = None \<and>
   main stable_sort_desc parse_decimal no_files sample_reader =
     \<lparr>completed = [], images = [], raised = None, report_data = None\<rparr>"
proof -
  have n: "no_files ''data/NBA_Player_Stats.csv'' = None" by (simp add: no_files_def)
  show ?thesis
    by (rule missing_file_halts [where fs = no_files and read_csv = sample_reader, OF n])
qed

section \<open>Missing points in the ranking\<close>

text \<open>
  C2, as the claim states it, fails on a table with a missing \<open>PTS\<close>: of the rows with
  \<open>PTS\<close> NaN and 5 the function returns 5 first and NaN last, and NaN is in no order with
  5, so the returned rows are not in non-increasing order (and no order of them would be).
\<close>

theorem missing_points_not_non_increasing:
  "result_column ''PTS'' (analyze_top_scorers stable_sort_desc missing_points 10)
     = Inr [Num (Fin 5), Num NaN] \<and>
   \<not> fl_le NaN (Fin 5) \<and> \<not> fl_le (Fin 5) NaN"
  by (simp add: top_eval missing_points_def)

section \<open>The order of rows with equal points\<close>

text \<open>
  \<open>analyze_top_scorers\<close> leaves the order of rows with equal \<open>PTS\<close> to the sorting
  algorithm. Both algorithms below keep the promise of \<open>sort_values\<close>; one returns the tied
  rows in their input order, the other in the reverse order.
\<close>

lemma tie_reversing_sort_sorts: "sorts_descending tie_reversing_sort"
  by (simp add: sorts_descending_def tie_reversing_sort_def mset_stable_sort_desc
      sorted_stable_sort_desc)

lemma ties_in_input_order:
  "result_column ''Player'' (analyze_top_scorers stable_sort_desc tied_scorers 10)
     = Inr [Str ''P1'', Str ''P2'']"
  by (simp add: top_eval tied_scorers_def)

lemma ties_in_reverse_order:
  "result_column ''Player'' (analyze_top_scorers tie_reversing_sort tied_scorers 10)
     = Inr [Str ''P2'', Str ''P1'']"
  by (simp add: top_eval tied_scorers_def tie_reversing_sort_def)

end
